theory Spec2Isabelle
  imports Complex_Main
begin

section \<open>Python strings\<close>

text \<open>
  A Python \<^verbatim>\<open>str\<close> is a sequence of Unicode code points, and \<^verbatim>\<open>len\<close> counts code
  points. A string is therefore modelled as a list of code points (natural numbers), not
  as a list of 8-bit characters. \<open>lit\<close> embeds an ASCII literal of the source.
\<close>

type_synonym str = "nat list"

definition lit :: "string \<Rightarrow> str" where
  "lit s = map of_char s"

text \<open>
  The code points that \<^verbatim>\<open>str.isspace\<close>, \<^verbatim>\<open>str.strip()\<close> and \<^verbatim>\<open>str.split()\<close> treat as
  white space: U+0009..U+000D, U+001C..U+0020, U+0085, U+00A0, U+1680, U+2000..U+200A,
  U+2028, U+2029, U+202F, U+205F and U+3000.
\<close>

definition isspace :: "nat \<Rightarrow> bool" where
  "isspace c =
     ((9 \<le> c \<and> c \<le> 13) \<or> (28 \<le> c \<and> c \<le> 32) \<or> c = 133 \<or> c = 160 \<or> c = 5760 \<or>
      (8192 \<le> c \<and> c \<le> 8202) \<or> c = 8232 \<or> c = 8233 \<or> c = 8239 \<or> c = 8287 \<or>
      c = 12288)"

text \<open>\<^verbatim>\<open>s.strip()\<close>: white space is removed from the left end, then from the right end.\<close>

definition strip :: "str \<Rightarrow> str" where
  "strip s = rev (dropWhile isspace (rev (dropWhile isspace s)))"

text \<open>
  \<^verbatim>\<open>s.split()\<close> with no separator: the string is scanned from the left, \<open>tok\<close> is the
  token read so far; a white-space code point ends the token, and an empty token is
  never emitted, so runs of white space count as one separator and white space at the
  ends yields no empty string.
\<close>

definition flush :: "str \<Rightarrow> str list" where
  "flush tok = (if tok = [] then [] else [tok])"

fun split_ws_from :: "str \<Rightarrow> str \<Rightarrow> str list" where
  "split_ws_from tok [] = flush tok"
| "split_ws_from tok (c # cs) =
     (if isspace c then flush tok @ split_ws_from [] cs
      else split_ws_from (tok @ [c]) cs)"

definition split_ws :: "str \<Rightarrow> str list" where
  "split_ws s = split_ws_from [] s"

text \<open>
  \<^verbatim>\<open>s.split(sep)\<close>: the leftmost occurrence of \<open>sep\<close> ends the current piece and the
  scan resumes behind it; the last piece is always emitted, also when it is empty.
  Python raises \<^verbatim>\<open>ValueError\<close> for an empty separator.
\<close>

datatype exn =
    HTTPException nat str
  | ValueError
  | ZeroDivisionError

function split_sep_from :: "str \<Rightarrow> str \<Rightarrow> str \<Rightarrow> str list" where
  "split_sep_from sep tok [] = [tok]"
| "split_sep_from sep tok (c # cs) =
     (if sep \<noteq> [] \<and> take (length sep) (c # cs) = sep
      then tok # split_sep_from sep [] (drop (length sep) (c # cs))
      else split_sep_from sep (tok @ [c]) cs)"
  by pat_completeness auto
termination
  by (relation "measure (\<lambda>(sep, tok, s). length s)") auto

definition split_sep :: "str \<Rightarrow> str \<Rightarrow> exn + str list" where
  "split_sep sep s = (if sep = [] then Inl ValueError else Inr (split_sep_from sep [] s))"

text \<open>\<^verbatim>\<open>sep.join(xs)\<close>.\<close>

fun join :: "str \<Rightarrow> str list \<Rightarrow> str" where
  "join sep [] = []"
| "join sep [x] = x"
| "join sep (x # y # ys) = x @ sep @ join sep (y # ys)"

text \<open>\<^verbatim>\<open>s.lower()\<close> on the ASCII letters; \<^verbatim>\<open>s.endswith(suffix)\<close>; \<^verbatim>\<open>str(n)\<close> for \<open>n \<ge> 0\<close>.
  No code point outside ASCII lower-cases to one of \<^verbatim>\<open>.\<close>, \<^verbatim>\<open>p\<close>, \<^verbatim>\<open>d\<close>, \<^verbatim>\<open>f\<close>, which
  are all the file-name test below compares with.\<close>

definition lower :: "str \<Rightarrow> str" where
  "lower s = map (\<lambda>c. if 65 \<le> c \<and> c \<le> 90 then c + 32 else c) s"

definition endswith :: "str \<Rightarrow> str \<Rightarrow> bool" where
  "endswith s suffix =
     (length suffix \<le> length s \<and> drop (length s - length suffix) s = suffix)"

fun str_of_nat :: "nat \<Rightarrow> str" where
  "str_of_nat n = (if n < 10 then [48 + n] else str_of_nat (n div 10) @ [48 + n mod 10])"

declare str_of_nat.simps [simp del]

section \<open>The data model\<close>

text \<open>
  What \<^verbatim>\<open>PyPDF2.PdfReader\<close> gives the service. The library is outside the repository, so
  what it does is the input of the model. There are three outcomes:
  \<^item> \<open>Unreadable e\<close>: opening or parsing the file, or reading its list of pages, raises;
    \<open>e\<close> is the message \<^verbatim>\<open>str(e)\<close> of the exception.
  \<^item> \<open>MetadataRaises e\<close>: the reader is built, but reading one of the seven properties
    of its document information in lines 46 to 52 raises with message \<open>e\<close>. The
    properties \<^verbatim>\<open>creation_date\<close> and \<^verbatim>\<open>modification_date\<close> parse the date string of the
    PDF and raise when it is not of the form \<^verbatim>\<open>D:%Y%m%d%H%M%S%z\<close>.
  \<^item> \<open>Reader r\<close>: the reader is built and every property read returns; \<open>r\<close> holds
    what the reads return and the list of pages.

  A text property (\<^verbatim>\<open>title\<close>, \<^verbatim>\<open>author\<close>, \<^verbatim>\<open>subject\<close>, \<^verbatim>\<open>creator\<close>, \<^verbatim>\<open>producer\<close>)
  returns \<^verbatim>\<open>None\<close> when the entry is missing, a \<^verbatim>\<open>str\<close> when the entry is a text
  string (\<open>TextString s\<close>), and otherwise the PDF object itself, for instance a number,
  which is no \<^verbatim>\<open>str\<close>: \<open>Object o b\<close> is such an object \<open>o\<close>, of an arbitrary type \<open>'o\<close>,
  with its truth value \<open>b\<close> (\<^verbatim>\<open>bool(o)\<close>). A date property returns \<^verbatim>\<open>None\<close> or a \<^verbatim>\<open>datetime\<close>, a
  value of the type \<open>'d\<close>, which \<^verbatim>\<open>str\<close> renders; the rendering is the parameter
  \<open>date_str\<close> of the model. \<open>None\<close> for the reader's metadata stands for a value that
  is false in \<^verbatim>\<open>if pdf_reader.metadata\<close>: no document information at all, or an empty
  one. \<^verbatim>\<open>page.extract_text()\<close> either returns the text of the page or raises, again
  with its message.
\<close>

datatype 'o field_value = TextString str | Object 'o bool

record ('o, 'd) document_information =
  title :: "'o field_value option"
  author :: "'o field_value option"
  subject :: "'o field_value option"
  creator :: "'o field_value option"
  producer :: "'o field_value option"
  creation_date :: "'d option"
  modification_date :: "'d option"

datatype page = Extracted str | Raised str

record ('o, 'd) pdf_reader =
  reader_metadata :: "('o, 'd) document_information option"
  pages :: "page list"

datatype ('o, 'd) pdf_file =
    Unreadable str
  | MetadataRaises str
  | Reader "('o, 'd) pdf_reader"

text \<open>
  The dictionaries the service builds. A section has the keys \<^verbatim>\<open>type\<close>,
  \<^verbatim>\<open>page_number\<close>, \<^verbatim>\<open>content\<close>, \<^verbatim>\<open>word_count\<close>, \<^verbatim>\<open>char_count\<close> and, for a failed page
  only, \<^verbatim>\<open>error\<close>. The result of the extraction has the keys \<^verbatim>\<open>text_content\<close>,
  \<^verbatim>\<open>page_count\<close>, \<^verbatim>\<open>word_count\<close> (here \<open>doc_word_count\<close>, to keep it apart from the
  section's), \<^verbatim>\<open>metadata\<close> and \<^verbatim>\<open>sections\<close>. A value of the metadata dictionary is
  a string or an object that a text property returned. \<^verbatim>\<open>avg_words_per_page\<close> is the
  integer \<^verbatim>\<open>0\<close> or a floating-point number: \<open>PyFloat q\<close> is the double whose value is
  the rational number \<open>q\<close>.
\<close>

record page_section =
  sec_type :: str
  page_number :: nat
  content :: str
  word_count :: nat
  char_count :: nat
  error :: "str option"

record 'o document =
  text_content :: str
  page_count :: nat
  doc_word_count :: nat
  metadata :: "string \<rightharpoonup> 'o field_value"
  sections :: "page_section list"

record 'o response = "'o document" +
  document_id :: str
  filename :: str

datatype number = PyInt int | PyFloat rat

record basic_stats =
  stats_page_count :: nat
  stats_word_count :: nat
  sentence_count :: nat
  paragraph_count :: nat
  avg_words_per_page :: number

record 'o analysis = "'o response" +
  basic_stats :: basic_stats
  analysis_timestamp :: nat

section \<open>extract\_text\_from\_pdf\<close>

text \<open>
  \<^verbatim>\<open>x or ''\<close> for what a text property returned: the empty string when \<open>x\<close> is
  \<^verbatim>\<open>None\<close>, the empty string or an object that is false, and \<open>x\<close> itself otherwise, also
  when it is no string.
\<close>

definition or_empty :: "'o field_value option \<Rightarrow> 'o field_value" where
  "or_empty x =
     (case x of
        None \<Rightarrow> TextString []
      | Some (TextString s) \<Rightarrow> (if s = [] then TextString [] else TextString s)
      | Some (Object o_val truth) \<Rightarrow> (if truth then Object o_val truth else TextString []))"

text \<open>
  \<^verbatim>\<open>str(d) if d else ''\<close> for what a date property returned: \<^verbatim>\<open>None\<close> or a \<^verbatim>\<open>datetime\<close>,
  which is always true. A date property that raises is the case \<open>MetadataRaises\<close> of the
  file, not a value here.
\<close>

definition date_or_empty :: "('d \<Rightarrow> str) \<Rightarrow> 'd option \<Rightarrow> 'o field_value" where
  "date_or_empty date_str d =
     (case d of None \<Rightarrow> TextString [] | Some x \<Rightarrow> TextString (date_str x))"

text \<open>Lines 43 to 53: the metadata dictionary, for a reader whose property reads return.\<close>

definition extract_metadata ::
  "('d \<Rightarrow> str) \<Rightarrow> ('o, 'd) document_information option \<Rightarrow> (string \<rightharpoonup> 'o field_value)" where
  "extract_metadata date_str md =
     (case md of
        None \<Rightarrow> Map.empty
      | Some m \<Rightarrow>
          [''title'' \<mapsto> or_empty (title m),
           ''author'' \<mapsto> or_empty (author m),
           ''subject'' \<mapsto> or_empty (subject m),
           ''creator'' \<mapsto> or_empty (creator m),
           ''producer'' \<mapsto> or_empty (producer m),
           ''creation_date'' \<mapsto> date_or_empty date_str (creation_date m),
           ''modification_date'' \<mapsto> date_or_empty date_str (modification_date m)])"

text \<open>The separator \<^verbatim>\<open>"\n\n"\<close>: two line feeds.\<close>

definition blank_line :: str where
  "blank_line = [10, 10]"

text \<open>
  Lines 59 to 81: one iteration of the loop over \<^verbatim>\<open>enumerate(pdf_reader.pages)\<close>. The
  state is the pair of \<^verbatim>\<open>full_text\<close> and \<^verbatim>\<open>sections\<close> (here \<open>secs\<close>). When \<^verbatim>\<open>extract_text()\<close> raises,
  control leaves the \<^verbatim>\<open>try\<close> block before \<^verbatim>\<open>full_text\<close> is assigned.
\<close>

definition page_step :: "str \<times> page_section list \<Rightarrow> nat \<times> page \<Rightarrow> str \<times> page_section list" where
  "page_step st np =
     (case st of (full_text, secs) \<Rightarrow>
      case np of (page_num, page) \<Rightarrow>
        (case page of
           Extracted page_text \<Rightarrow>
             (full_text @ page_text @ blank_line,
              secs @
                [\<lparr>sec_type = lit ''page'', page_number = page_num + 1,
                  content = strip page_text, word_count = length (split_ws page_text),
                  char_count = length page_text, error = None\<rparr>])
         | Raised e \<Rightarrow>
             (full_text,
              secs @
                [\<lparr>sec_type = lit ''page'', page_number = page_num + 1,
                  content = lit ''[Error extracting text from this page]'',
                  word_count = 0, char_count = 0, error = Some e\<rparr>])))"

definition run_pages :: "page list \<Rightarrow> str \<times> page_section list" where
  "run_pages ps = foldl page_step ([], []) (enumerate 0 ps)"

text \<open>
  The whole function: any exception of the outer \<^verbatim>\<open>try\<close> block, raised when the file is
  opened or when the metadata is read, becomes an \<^verbatim>\<open>HTTPException\<close> with status 400.
\<close>

definition extract_text_from_pdf ::
  "('d \<Rightarrow> str) \<Rightarrow> ('o, 'd) pdf_file \<Rightarrow> exn + 'o document" where
  "extract_text_from_pdf date_str file =
     (case file of
        Unreadable e \<Rightarrow>
          Inl (HTTPException 400 (lit ''Failed to extract text from PDF: '' @ e))
      | MetadataRaises e \<Rightarrow>
          Inl (HTTPException 400 (lit ''Failed to extract text from PDF: '' @ e))
      | Reader pdf_reader \<Rightarrow>
          (case run_pages (pages pdf_reader) of (full_text, secs) \<Rightarrow>
             Inr \<lparr>text_content = strip full_text,
                  page_count = length (pages pdf_reader),
                  doc_word_count = length (split_ws full_text),
                  metadata = extract_metadata date_str (reader_metadata pdf_reader),
                  sections = secs\<rparr>))"

section \<open>The endpoints\<close>

text \<open>
  \<^verbatim>\<open>str(e)\<close> for a caught exception. The text of an \<^verbatim>\<open>HTTPException\<close> is the web
  framework's and is taken as the parameter \<open>http_str\<close>.
\<close>

definition exn_str :: "(nat \<Rightarrow> str \<Rightarrow> str) \<Rightarrow> exn \<Rightarrow> str" where
  "exn_str http_str e =
     (case e of
        HTTPException status_code detail \<Rightarrow> http_str status_code detail
      | ValueError \<Rightarrow> lit ''empty separator''
      | ZeroDivisionError \<Rightarrow> lit ''division by zero'')"

text \<open>
  \<^verbatim>\<open>extract_text\<close>, the handler of \<^verbatim>\<open>/extract-text\<close>. \<open>now\<close> is \<^verbatim>\<open>int(time.time())\<close>. The
  file-name test stands before the \<^verbatim>\<open>try\<close> block; inside it, \<^verbatim>\<open>except Exception\<close>
  catches whatever \<^verbatim>\<open>extract_text_from_pdf\<close> raises, the \<^verbatim>\<open>HTTPException\<close> included,
  and raises a new one with status 500. Writing and deleting the temporary file is
  taken to succeed and leaves no trace in the result.
\<close>

definition extract_text ::
  "(nat \<Rightarrow> str \<Rightarrow> str) \<Rightarrow> ('d \<Rightarrow> str) \<Rightarrow> nat \<Rightarrow> str \<Rightarrow> str option \<Rightarrow> ('o, 'd) pdf_file
     \<Rightarrow> exn + 'o response" where
  "extract_text http_str date_str now file_name doc_id file =
     (if \<not> endswith (lower file_name) (lit ''.pdf'')
      then Inl (HTTPException 400 (lit ''Only PDF files are supported''))
      else
        (case extract_text_from_pdf date_str file of
           Inl e \<Rightarrow> Inl (HTTPException 500 (lit ''Processing failed: '' @ exn_str http_str e))
         | Inr extraction_result \<Rightarrow>
             Inr (document.extend extraction_result
                   (response.fields
                     (case doc_id of
                        None \<Rightarrow> lit ''doc_'' @ str_of_nat now
                      | Some d \<Rightarrow> (if d = [] then lit ''doc_'' @ str_of_nat now else d))
                     file_name))))"

subsection \<open>True division\<close>

text \<open>
  \<^verbatim>\<open>a / b\<close> on two integers is a floating-point number: the IEEE 754 double nearest to
  the quotient, a tie going to the even significand. The operands here are lengths of
  lists, so they are natural numbers.

  \<open>bit_length\<close> is \<^verbatim>\<open>int.bit_length\<close>; \<open>pow2 k\<close> is the power of two with the integer
  exponent \<open>k\<close>; \<open>round_half_even n d\<close> is the integer nearest to \<open>n / d\<close>;
  \<open>exponent a b\<close> is the integer \<open>e\<close> with \<open>pow2 e \<le> a / b < pow2 (e + 1)\<close>. A double
  has a significand of 53 bits, so the quotient is rounded to a multiple of
  \<open>pow2 (e - 52)\<close>, and to a multiple of \<open>pow2 (- 1074)\<close>, the smallest positive
  double, where that is larger.
\<close>

fun bit_length :: "nat \<Rightarrow> nat" where
  "bit_length n = (if n = 0 then 0 else Suc (bit_length (n div 2)))"

declare bit_length.simps [simp del]

definition pow2 :: "int \<Rightarrow> rat" where
  "pow2 k = (if 0 \<le> k then 2 ^ nat k else 1 / 2 ^ nat (- k))"

definition round_half_even :: "nat \<Rightarrow> nat \<Rightarrow> nat" where
  "round_half_even n d =
     (let q = n div d; r = n mod d
      in if 2 * r < d then q else if d < 2 * r then q + 1 else if even q then q else q + 1)"

definition exponent :: "nat \<Rightarrow> nat \<Rightarrow> int" where
  "exponent a b =
     (let d = int (bit_length a) - int (bit_length b)
      in if (if 0 \<le> d then b * 2 ^ nat d \<le> a else b \<le> a * 2 ^ nat (- d)) then d else d - 1)"

definition nearest_double :: "nat \<Rightarrow> nat \<Rightarrow> rat" where
  "nearest_double a b =
     (if a = 0 then 0
      else
        (let s = max (exponent a b - 52) (- 1074);
             m = (if 0 \<le> s then round_half_even a (b * 2 ^ nat s)
                  else round_half_even (a * 2 ^ nat (- s)) b)
         in of_nat m * pow2 s))"

text \<open>
  Python raises \<^verbatim>\<open>ZeroDivisionError\<close> for the divisor 0. It raises \<^verbatim>\<open>OverflowError\<close>
  when the rounded quotient reaches \<open>2 ^ 1024\<close>; lemma \<open>nearest_double_finite\<close> below
  shows that this needs a dividend of more than 1023 bits, which no length of a list
  has, and the model has no such case.
\<close>

definition truediv :: "nat \<Rightarrow> nat \<Rightarrow> exn + rat" where
  "truediv a b = (if b = 0 then Inl ZeroDivisionError else Inr (nearest_double a b))"

text \<open>
  Lines 170 to 194 of \<^verbatim>\<open>analyze_document\<close>: the statistics computed from the
  extraction response. \<open>now_ms\<close> is \<^verbatim>\<open>int(time.time() * 1000)\<close>.
\<close>

definition sentences :: "str list \<Rightarrow> str list" where
  "sentences pieces = map strip (filter (\<lambda>s. strip s \<noteq> []) pieces)"

definition basic_analysis :: "nat \<Rightarrow> 'o response \<Rightarrow> exn + 'o analysis" where
  "basic_analysis now_ms extraction_response =
     (case split_sep (lit ''.'') (text_content extraction_response) of
        Inl e \<Rightarrow> Inl e
      | Inr by_dot \<Rightarrow>
     (case split_sep blank_line (text_content extraction_response) of
        Inl e \<Rightarrow> Inl e
      | Inr by_blank_line \<Rightarrow>
     (case (if page_count extraction_response > 0
            then map_sum id PyFloat
                   (truediv (doc_word_count extraction_response)
                      (page_count extraction_response))
            else Inr (PyInt 0)) of
        Inl e \<Rightarrow> Inl e
      | Inr avg \<Rightarrow>
          Inr (response.extend extraction_response
                (analysis.fields
                  \<lparr>stats_page_count = page_count extraction_response,
                    stats_word_count = doc_word_count extraction_response,
                    sentence_count = length (sentences by_dot),
                    paragraph_count = length (sentences by_blank_line),
                    avg_words_per_page = avg\<rparr>
                  now_ms)))))"

definition analyze_document ::
  "(nat \<Rightarrow> str \<Rightarrow> str) \<Rightarrow> ('d \<Rightarrow> str) \<Rightarrow> nat \<Rightarrow> nat \<Rightarrow> str \<Rightarrow> str option \<Rightarrow> ('o, 'd) pdf_file
     \<Rightarrow> exn + 'o analysis" where
  "analyze_document http_str date_str now now_ms file_name doc_id file =
     (case extract_text http_str date_str now file_name doc_id file of
        Inl e \<Rightarrow> Inl e
      | Inr extraction_response \<Rightarrow> basic_analysis now_ms extraction_response)"

section \<open>Auxiliary definitions\<close>

text \<open>
  What one iteration of the loop adds to \<^verbatim>\<open>full_text\<close> and which section it appends,
  read off \<open>page_step\<close> (lemma \<open>page_step_eq\<close> below proves that they are its two
  components).
\<close>

fun page_block :: "page \<Rightarrow> str" where
  "page_block (Extracted page_text) = page_text @ blank_line"
| "page_block (Raised e) = []"

fun section_of :: "nat \<Rightarrow> page \<Rightarrow> page_section" where
  "section_of page_num (Extracted page_text) =
     \<lparr>sec_type = lit ''page'', page_number = page_num + 1,
       content = strip page_text, word_count = length (split_ws page_text),
       char_count = length page_text, error = None\<rparr>"
| "section_of page_num (Raised e) =
     \<lparr>sec_type = lit ''page'', page_number = page_num + 1,
       content = lit ''[Error extracting text from this page]'',
       word_count = 0, char_count = 0, error = Some e\<rparr>"

text \<open>A reader and a date rendering for the concrete instances below.\<close>

definition example_reader :: "(nat, unit) pdf_reader" where
  "example_reader =
     \<lparr>reader_metadata =
        Some \<lparr>title = Some (TextString (lit ''Report'')), author = None,
              subject = Some (TextString []), creator = Some (Object 42 True),
              producer = Some (Object 0 False),
              creation_date = Some (), modification_date = None\<rparr>,
      pages = [Extracted (lit ''Hello world.''), Raised (lit ''boom''),
               Extracted (lit '' Foo bar baz. '')]\<rparr>"

text \<open>
  The three pages \<^verbatim>\<open>"Hello world."\<close>, \<^verbatim>\<open>"Foo bar baz."\<close> and \<^verbatim>\<open>""\<close>, with no document
  information: five words on three pages. And a one-page file whose title is the
  number 42.
\<close>

definition scenario_reader :: "(nat, unit) pdf_reader" where
  "scenario_reader =
     \<lparr>reader_metadata = None,
      pages = [Extracted (lit ''Hello world.''), Extracted (lit ''Foo bar baz.''),
               Extracted []]\<rparr>"

definition numeric_title_reader :: "(nat, unit) pdf_reader" where
  "numeric_title_reader =
     \<lparr>reader_metadata =
        Some \<lparr>title = Some (Object 42 True), author = None, subject = None,
              creator = None, producer = None,
              creation_date = None, modification_date = None\<rparr>,
      pages = [Extracted (lit ''Hello world.'')]\<rparr>"

text \<open>The response of \<^verbatim>\<open>/extract-text\<close> for these three pages (lemma \<open>scenario_extract_text\<close>).\<close>

definition scenario_response :: "nat response" where
  "scenario_response =
     \<lparr>text_content = lit ''Hello world.'' @ blank_line @ lit ''Foo bar baz.'',
      page_count = 3, doc_word_count = 5, metadata = Map.empty,
      sections =
        [\<lparr>sec_type = lit ''page'', page_number = 1, content = lit ''Hello world.'',
          word_count = 2, char_count = 12, error = None\<rparr>,
         \<lparr>sec_type = lit ''page'', page_number = 2, content = lit ''Foo bar baz.'',
          word_count = 3, char_count = 12, error = None\<rparr>,
         \<lparr>sec_type = lit ''page'', page_number = 3, content = [],
          word_count = 0, char_count = 0, error = None\<rparr>],
      document_id = lit ''doc-1'', filename = lit ''report.pdf''\<rparr>"

definition example_date :: "unit \<Rightarrow> str" where
  "example_date d = lit ''2024-01-01 00:00:00''"

section \<open>Facts about the string operations\<close>

text \<open>
  White space splits tokens; white space at either end changes neither the tokens nor,
  at the right end, the stripped string.
\<close>

lemma split_ws_from_append:
  "isspace w \<Longrightarrow> split_ws_from tok (a @ w # b) = split_ws_from tok a @ split_ws_from [] b"
  by (induction a arbitrary: tok) auto

lemma split_ws_from_all_space:
  "\<forall>c\<in>set ws. isspace c \<Longrightarrow> split_ws_from tok ws = flush tok"
  by (induction ws arbitrary: tok) (auto simp: flush_def)

lemma split_ws_from_trailing:
  "\<forall>c\<in>set ws. isspace c \<Longrightarrow> split_ws_from tok (s @ ws) = split_ws_from tok s"
  by (induction s arbitrary: tok) (auto simp: split_ws_from_all_space)

lemma split_ws_from_leading:
  "split_ws_from [] (dropWhile isspace s) = split_ws_from [] s"
  by (induction s) (auto simp: flush_def)

lemma rstrip_decomp:
  "\<exists>ws. (\<forall>c\<in>set ws. isspace c) \<and> t = rev (dropWhile isspace (rev t)) @ ws"
proof -
  have "rev t = takeWhile isspace (rev t) @ dropWhile isspace (rev t)"
    by simp
  then have "t = rev (dropWhile isspace (rev t)) @ rev (takeWhile isspace (rev t))"
    by (metis rev_append rev_rev_ident)
  moreover have "\<forall>c\<in>set (rev (takeWhile isspace (rev t))). isspace c"
    by (auto dest: set_takeWhileD)
  ultimately show ?thesis by blast
qed

lemma split_ws_from_rstrip:
  "split_ws_from tok (rev (dropWhile isspace (rev t))) = split_ws_from tok t"
proof -
  obtain ws where ws: "\<forall>c\<in>set ws. isspace c" "t = rev (dropWhile isspace (rev t)) @ ws"
    using rstrip_decomp by blast
  have "split_ws_from tok (rev (dropWhile isspace (rev t)) @ ws) =
        split_ws_from tok (rev (dropWhile isspace (rev t)))"
    using ws(1) by (rule split_ws_from_trailing)
  with ws(2) show ?thesis by simp
qed

lemma split_ws_strip: "split_ws (strip s) = split_ws s"
  by (simp add: split_ws_def strip_def split_ws_from_rstrip split_ws_from_leading)

lemma strip_trailing:
  assumes "\<forall>c\<in>set ws. isspace c"
  shows "strip (s @ ws) = strip s"
proof (cases "\<forall>c\<in>set s. isspace c")
  case True
  with assms have a: "dropWhile isspace (s @ ws) = []" and b: "dropWhile isspace s = []"
    by auto
  show ?thesis unfolding strip_def a b by simp
next
  case False
  then obtain x where "x \<in> set s" "\<not> isspace x" by blast
  then have "dropWhile isspace (s @ ws) = dropWhile isspace s @ ws"
    by (rule dropWhile_append1)
  moreover have "dropWhile isspace (rev ws @ rev (dropWhile isspace s)) =
                 dropWhile isspace (rev (dropWhile isspace s))"
    using assms by (intro dropWhile_append2) simp
  ultimately show ?thesis by (simp add: strip_def)
qed

lemma isspace_newline: "isspace 10"
  by (simp add: isspace_def)

lemma strip_blank_line: "strip (s @ blank_line) = strip s"
  by (rule strip_trailing) (simp add: blank_line_def isspace_newline)

text \<open>
  \<open>split_sep_from\<close> cuts the string without losing anything: joining the pieces with
  the separator gives the string back.
\<close>

lemma split_sep_from_not_Nil: "split_sep_from sep tok s \<noteq> []"
  by (induction sep tok s rule: split_sep_from.induct) simp_all

lemma join_Cons: "rest \<noteq> [] \<Longrightarrow> join sep (x # rest) = x @ sep @ join sep rest"
  by (cases rest) simp_all

lemma join_split_sep_from: "join sep (split_sep_from sep tok s) = tok @ s"
proof (induction sep tok s rule: split_sep_from.induct)
  case (1 sep tok)
  show ?case by simp
next
  case (2 sep tok c cs)
  show ?case
  proof (cases "sep \<noteq> [] \<and> take (length sep) (c # cs) = sep")
    case True
    then have "join sep (split_sep_from sep [] (drop (length sep) (c # cs))) = drop (length sep) (c # cs)"
      using 2(1) by simp
    moreover have "sep @ drop (length sep) (c # cs) = c # cs"
      using True by (metis append_take_drop_id)
    ultimately show ?thesis
      using True by (simp add: join_Cons split_sep_from_not_Nil del: take_Suc_Cons drop_Suc_Cons)
  next
    case False
    then show ?thesis using 2(2) by auto
  qed
qed

lemma sentences_eq: "sentences pieces = filter (\<lambda>p. p \<noteq> []) (map strip pieces)"
  by (induction pieces) (simp_all add: sentences_def)

section \<open>Facts about true division\<close>

text \<open>
  \<open>bit_length n\<close> is the number of bits of \<open>n\<close>; rounding to the nearest integer is off
  by at most one half. So \<open>nearest_double a b\<close> differs from the quotient by at most
  half the unit it rounds to (\<open>nearest_double_error\<close>), it stays below \<open>2 ^ 1024\<close> for
  a dividend of at most 1023 bits (\<open>nearest_double_finite\<close>), the exponent brackets the
  quotient between two powers of two (\<open>exponent_bounds\<close>), the significand has at most
  53 bits or is \<open>2 ^ 53\<close> (\<open>nearest_double_significand\<close>), and for a divisor below
  \<open>2 ^ 1022\<close> the relative error is at most \<open>2 ^ - 53\<close>
  (\<open>nearest_double_relative_error\<close>).
\<close>

lemma bit_length_0: "bit_length 0 = 0"
  by (simp add: bit_length.simps)

lemma bit_length_pos_eq: "0 < n \<Longrightarrow> bit_length n = Suc (bit_length (n div 2))"
  by (subst bit_length.simps) simp

lemma bit_length_upper: "n < 2 ^ bit_length n"
proof (induction n rule: bit_length.induct)
  case (1 n)
  show ?case
  proof (cases "n = 0")
    case True
    then show ?thesis by (simp add: bit_length_0)
  next
    case False
    then have "n div 2 < 2 ^ bit_length (n div 2)"
      using 1 by simp
    then have "n < 2 * 2 ^ bit_length (n div 2)"
      by linarith
    then show ?thesis
      using False by (simp add: bit_length_pos_eq)
  qed
qed

lemma bit_length_lower: "0 < n \<Longrightarrow> 2 ^ (bit_length n - 1) \<le> n"
proof (induction n rule: bit_length.induct)
  case (1 n)
  show ?case
  proof (cases "n div 2 = 0")
    case True
    then show ?thesis
      using 1(2) by (simp add: bit_length_pos_eq bit_length_0)
  next
    case False
    then have pos: "0 < n div 2" by simp
    then have ih: "2 ^ (bit_length (n div 2) - 1) \<le> n div 2"
      using 1 by simp
    have "bit_length (n div 2) = Suc (bit_length (n div 2) - 1)"
      using pos by (simp add: bit_length_pos_eq)
    then have "(2::nat) ^ bit_length (n div 2) = 2 * 2 ^ (bit_length (n div 2) - 1)"
      by (metis power_Suc)
    also have "\<dots> \<le> 2 * (n div 2)"
      using ih by simp
    also have "\<dots> \<le> n"
      by simp
    finally show ?thesis
      using 1(2) by (simp add: bit_length_pos_eq)
  qed
qed

lemma bit_length_le: "n < 2 ^ k \<Longrightarrow> bit_length n \<le> k"
proof (cases "n = 0")
  case True
  then show ?thesis by (simp add: bit_length_0)
next
  case False
  assume "n < 2 ^ k"
  moreover have "2 ^ (bit_length n - 1) \<le> n"
    using False bit_length_lower [of n] by simp
  ultimately have "(2::nat) ^ (bit_length n - 1) < 2 ^ k"
    by linarith
  then have "bit_length n - 1 < k"
    by simp
  then show ?thesis by linarith
qed

lemma bit_length_pos: "0 < n \<Longrightarrow> 0 < bit_length n"
  by (simp add: bit_length_pos_eq)

lemma round_half_even_le: "round_half_even n d \<le> n div d + 1"
  by (simp add: round_half_even_def Let_def)

lemma round_half_even_error:
  assumes "0 < d"
  shows "2 * \<bar>int (round_half_even n d) * int d - int n\<bar> \<le> int d"
proof -
  have n: "int n = int (n div d) * int d + int (n mod d)"
    by (metis div_mult_mod_eq of_nat_add of_nat_mult)
  have r: "n mod d < d"
    using assms by simp
  show ?thesis
    using r
    by (auto simp add: round_half_even_def Let_def n algebra_simps)
qed


lemma pow2_powi: "pow2 k = 2 powi k"
  by (simp add: pow2_def power_int_def power_one_over inverse_eq_divide)

lemma pow2_int: "pow2 (int k) = 2 ^ k"
  by (simp add: pow2_def)

lemma pow2_pos: "0 < pow2 k"
  by (simp add: pow2_def)

lemma pow2_add: "pow2 (j + k) = pow2 j * pow2 k"
  by (simp add: pow2_powi power_int_add)

lemma pow2_mono: "j \<le> k \<Longrightarrow> pow2 j \<le> pow2 k"
  by (simp add: pow2_powi power_int_increasing)

lemma round_half_even_rat:
  assumes "0 < d"
  shows "2 * \<bar>of_nat (round_half_even n d) - of_nat n / of_nat d\<bar> \<le> (1::rat)"
proof -
  let ?m = "round_half_even n d"
  have "2 * \<bar>int ?m * int d - int n\<bar> \<le> int d"
    using assms by (rule round_half_even_error)
  then have "(of_int (2 * \<bar>int ?m * int d - int n\<bar>) :: rat) \<le> of_int (int d)"
    by (simp only: of_int_le_iff)
  then have i: "2 * \<bar>of_nat ?m * of_nat d - of_nat n\<bar> \<le> (of_nat d :: rat)"
    by simp
  have d: "(0::rat) < of_nat d"
    using assms by simp
  have "of_nat ?m - of_nat n / of_nat d = (of_nat ?m * of_nat d - of_nat n) / (of_nat d :: rat)"
    using d by (simp add: diff_divide_distrib)
  then have "2 * \<bar>of_nat ?m - of_nat n / of_nat d\<bar> =
             2 * \<bar>of_nat ?m * of_nat d - of_nat n\<bar> / (of_nat d :: rat)"
    using d by (simp add: abs_divide)
  also have "\<dots> \<le> 1"
    using i d by (simp add: divide_le_eq)
  finally show ?thesis .
qed

lemma significand_error:
  assumes "0 < b"
  shows "2 * \<bar>of_nat (if 0 \<le> s then round_half_even a (b * 2 ^ nat s)
                        else round_half_even (a * 2 ^ nat (- s)) b) * pow2 s -
               of_nat a / of_nat b\<bar> \<le> pow2 s"
proof (cases "0 \<le> s")
  case True
  let ?k = "nat s"
  let ?m = "round_half_even a (b * 2 ^ ?k)"
  let ?x = "of_nat ?m - of_nat a / (of_nat (b * 2 ^ ?k) :: rat)"
  have p: "pow2 s = 2 ^ ?k"
    using True by (simp add: pow2_def)
  have i: "2 * \<bar>?x\<bar> \<le> 1"
    using assms by (intro round_half_even_rat) simp
  have "?x * 2 ^ ?k = of_nat ?m * 2 ^ ?k - of_nat a / of_nat b"
    by (simp add: left_diff_distrib)
  then have "2 * \<bar>of_nat ?m * 2 ^ ?k - of_nat a / (of_nat b :: rat)\<bar> = 2 * \<bar>?x * 2 ^ ?k\<bar>"
    by (simp only:)
  also have "\<dots> = (2 * \<bar>?x\<bar>) * 2 ^ ?k"
    by (simp add: abs_mult)
  also have "\<dots> \<le> 1 * 2 ^ ?k"
    using i by (intro mult_right_mono) simp_all
  finally show ?thesis
    using True by (simp add: p)
next
  case False
  let ?k = "nat (- s)"
  let ?m = "round_half_even (a * 2 ^ ?k) b"
  let ?x = "of_nat ?m - of_nat (a * 2 ^ ?k) / (of_nat b :: rat)"
  have p: "pow2 s = 1 / 2 ^ ?k"
    using False by (simp add: pow2_def)
  have i: "2 * \<bar>?x\<bar> \<le> 1"
    using assms by (rule round_half_even_rat)
  have "?x / 2 ^ ?k = of_nat ?m * (1 / 2 ^ ?k) - of_nat a / of_nat b"
    by (simp add: diff_divide_distrib)
  then have "2 * \<bar>of_nat ?m * (1 / 2 ^ ?k) - of_nat a / (of_nat b :: rat)\<bar> =
             2 * \<bar>?x / 2 ^ ?k\<bar>"
    by (simp only:)
  also have "\<dots> = (2 * \<bar>?x\<bar>) / 2 ^ ?k"
    by (simp add: abs_divide)
  also have "\<dots> \<le> 1 / 2 ^ ?k"
    using i by (intro divide_right_mono) simp_all
  finally show ?thesis
    using False by (simp add: p)
qed

lemma nearest_double_error:
  assumes "0 < b"
  shows "2 * \<bar>nearest_double a b - of_nat a / of_nat b\<bar> \<le>
         (if a = 0 then 0 else pow2 (max (exponent a b - 52) (- 1074)))"
  using significand_error [OF assms, of "max (exponent a b - 52) (- 1074)" a]
  by (simp add: nearest_double_def Let_def)


lemma exponent_le: "exponent a b \<le> int (bit_length a) - int (bit_length b)"
  by (simp add: exponent_def Let_def)

lemma exponent_ge: "int (bit_length a) - int (bit_length b) - 1 \<le> exponent a b"
  by (simp add: exponent_def Let_def)

lemma nearest_double_finite:
  assumes "0 < b" and "a < 2 ^ 1023"
  shows "nearest_double a b < 2 ^ 1024"
proof (cases "a = 0")
  case True
  then show ?thesis by (simp add: nearest_double_def)
next
  case False
  let ?s = "max (exponent a b - 52) (- 1074)"
  have "bit_length a \<le> 1023"
    using assms(2) by (rule bit_length_le)
  moreover have "0 < bit_length b"
    using assms(1) by (rule bit_length_pos)
  ultimately have "?s \<le> 1023"
    using exponent_le [of a b] by linarith
  then have "pow2 ?s \<le> pow2 1023"
    by (rule pow2_mono)
  then have s: "pow2 ?s \<le> 2 ^ 1023"
    by (simp add: pow2_def)
  have "of_nat a / of_nat b \<le> (of_nat a :: rat)"
  proof -
    have "(1::rat) \<le> of_nat b"
      using assms(1) by simp
    then show ?thesis
      by (simp add: divide_le_eq mult_le_cancel_left1)
  qed
  moreover have "(of_nat a :: rat) \<le> 2 ^ 1023 - 1"
  proof -
    have "a + 1 \<le> 2 ^ 1023"
      using assms(2) by simp
    then have "(of_nat (a + 1) :: rat) \<le> of_nat (2 ^ 1023)"
      by (simp only: of_nat_le_iff)
    then show ?thesis by simp
  qed
  ultimately have q: "of_nat a / of_nat b \<le> (2 ^ 1023 - 1 :: rat)"
    by linarith
  have "2 * \<bar>nearest_double a b - of_nat a / of_nat b\<bar> \<le> pow2 ?s"
    using nearest_double_error [OF assms(1), of a] False by simp
  then have "\<bar>nearest_double a b - of_nat a / of_nat b\<bar> \<le> pow2 ?s / 2"
    by simp
  then have "nearest_double a b - of_nat a / of_nat b \<le> pow2 ?s / 2"
    by (simp only: abs_le_iff)
  then have "nearest_double a b \<le> of_nat a / of_nat b + pow2 ?s / 2"
    by (simp only: diff_le_eq add.commute)
  also have "\<dots> \<le> (2 ^ 1023 - 1) + 2 ^ 1023 / 2"
    using q s by linarith
  also have "\<dots> < 2 ^ 1023 + 2 ^ 1023"
    by simp
  also have "\<dots> = (2 ^ 1024 :: rat)"
    by simp
  finally show ?thesis .
qed

lemma bit_length_bounds_rat:
  assumes "0 < n"
  shows "pow2 (int (bit_length n) - 1) \<le> of_nat n" and "(of_nat n :: rat) < pow2 (int (bit_length n))"
proof -
  have "0 < bit_length n"
    using assms by (rule bit_length_pos)
  then have "int (bit_length n) - 1 = int (bit_length n - 1)"
    by simp
  then have "pow2 (int (bit_length n) - 1) = 2 ^ (bit_length n - 1)"
    by (simp only: pow2_int)
  also have "\<dots> = (of_nat (2 ^ (bit_length n - 1)) :: rat)"
    by simp
  also have "\<dots> \<le> of_nat n"
    using bit_length_lower [OF assms] by (simp only: of_nat_le_iff)
  finally show "pow2 (int (bit_length n) - 1) \<le> of_nat n" .
  have "(of_nat n :: rat) < of_nat (2 ^ bit_length n)"
    using bit_length_upper [of n] by (simp only: of_nat_less_iff)
  then show "(of_nat n :: rat) < pow2 (int (bit_length n))"
    by (simp add: pow2_int)
qed

lemma exponent_test:
  "(if 0 \<le> d then b * 2 ^ nat d \<le> a else b \<le> a * 2 ^ nat (- d)) \<longleftrightarrow>
   pow2 d * of_nat b \<le> (of_nat a :: rat)"
proof (cases "0 \<le> d")
  case True
  have "(b * 2 ^ nat d \<le> a) \<longleftrightarrow> ((of_nat (b * 2 ^ nat d) :: rat) \<le> of_nat a)"
    by (simp only: of_nat_le_iff)
  then show ?thesis
    using True by (simp add: pow2_def mult.commute)
next
  case False
  have "(b \<le> a * 2 ^ nat (- d)) \<longleftrightarrow> ((of_nat b :: rat) \<le> of_nat (a * 2 ^ nat (- d)))"
    by (simp only: of_nat_le_iff)
  then show ?thesis
    using False by (simp add: pow2_def field_simps)
qed

lemma exponent_bounds:
  assumes "0 < a" and "0 < b"
  shows "pow2 (exponent a b) * of_nat b \<le> of_nat a"
    and "(of_nat a :: rat) < pow2 (exponent a b + 1) * of_nat b"
proof -
  let ?d = "int (bit_length a) - int (bit_length b)"
  have b0: "(0::rat) < of_nat b"
    using assms(2) by simp
  have "(of_nat a :: rat) < pow2 (int (bit_length a))"
    using assms(1) by (rule bit_length_bounds_rat)
  also have "pow2 (int (bit_length a)) = pow2 (?d + 1) * pow2 (int (bit_length b) - 1)"
    by (simp add: pow2_add [symmetric])
  also have "\<dots> \<le> pow2 (?d + 1) * of_nat b"
    using bit_length_bounds_rat(1) [OF assms(2)] pow2_pos [of "?d + 1"]
    by (simp add: mult_left_mono)
  finally have upper: "(of_nat a :: rat) < pow2 (?d + 1) * of_nat b" .
  have "pow2 (?d - 1) * of_nat b \<le> pow2 (?d - 1) * pow2 (int (bit_length b))"
    using bit_length_bounds_rat(2) [OF assms(2)] pow2_pos [of "?d - 1"]
    by (simp add: mult_left_mono)
  also have "\<dots> = pow2 (int (bit_length a) - 1)"
    by (simp add: pow2_add [symmetric])
  also have "\<dots> \<le> of_nat a"
    using assms(1) by (rule bit_length_bounds_rat)
  finally have lower: "pow2 (?d - 1) * of_nat b \<le> (of_nat a :: rat)" .
  show "pow2 (exponent a b) * of_nat b \<le> of_nat a"
    using lower exponent_test [of ?d b a] by (simp add: exponent_def Let_def)
  show "(of_nat a :: rat) < pow2 (exponent a b + 1) * of_nat b"
    using upper exponent_test [of ?d b a] by (simp add: exponent_def Let_def)
qed

lemma nearest_double_significand:
  assumes "0 < a" and "0 < b"
  shows "\<exists>m. nearest_double a b = of_nat m * pow2 (max (exponent a b - 52) (- 1074)) \<and>
             m \<le> 2 ^ 53"
proof -
  let ?e = "exponent a b"
  let ?s = "max (?e - 52) (- 1074)"
  let ?m = "if 0 \<le> ?s then round_half_even a (b * 2 ^ nat ?s)
            else round_half_even (a * 2 ^ nat (- ?s)) b"
  have nd: "nearest_double a b = of_nat ?m * pow2 ?s"
    using assms(1) by (simp add: nearest_double_def Let_def)
  have b0: "(0::rat) < of_nat b"
    using assms(2) by simp
  have p: "0 < pow2 ?s"
    by (rule pow2_pos)
  have "(of_nat a :: rat) < pow2 (?e + 1) * of_nat b"
    using assms by (rule exponent_bounds)
  then have q: "of_nat a / of_nat b < pow2 (?e + 1)"
    using b0 by (simp add: divide_less_eq)
  have "?e + 1 \<le> ?s + 53"
    by simp
  then have "pow2 (?e + 1) \<le> pow2 (?s + 53)"
    by (rule pow2_mono)
  also have "\<dots> = pow2 ?s * 2 ^ 53"
    using pow2_add [of ?s 53] by (simp add: pow2_def)
  finally have u: "pow2 (?e + 1) \<le> pow2 ?s * 2 ^ 53" .
  have "2 * \<bar>of_nat ?m * pow2 ?s - of_nat a / of_nat b\<bar> \<le> pow2 ?s"
    using assms(2) by (rule significand_error)
  then have "\<bar>of_nat ?m * pow2 ?s - of_nat a / of_nat b\<bar> \<le> pow2 ?s / 2"
    by simp
  then have "of_nat ?m * pow2 ?s - of_nat a / of_nat b \<le> pow2 ?s / 2"
    by (simp only: abs_le_iff)
  then have "of_nat ?m * pow2 ?s \<le> of_nat a / of_nat b + pow2 ?s / 2"
    by (simp only: diff_le_eq add.commute)
  also have "\<dots> < pow2 ?s * 2 ^ 53 + pow2 ?s / 2"
    using q u by linarith
  also have "\<dots> = (2 ^ 53 + 1 / 2) * pow2 ?s"
    by (simp add: algebra_simps)
  finally have "(of_nat ?m :: rat) < 2 ^ 53 + 1 / 2"
    using p by (simp only: mult_less_cancel_right_pos)
  then have "(of_nat ?m :: rat) < of_nat (2 ^ 53 + 1)"
    by simp
  then have "?m < 2 ^ 53 + 1"
    by (simp only: of_nat_less_iff)
  then have "?m \<le> 2 ^ 53"
    by simp
  with nd show ?thesis
    by blast
qed

lemma nearest_double_relative_error:
  assumes "0 < b" and "b < 2 ^ 1022"
  shows "\<bar>nearest_double a b - of_nat a / of_nat b\<bar> \<le> (of_nat a / of_nat b) / 2 ^ 53"
proof (cases "a = 0")
  case True
  then show ?thesis by (simp add: nearest_double_def)
next
  case False
  then have a: "0 < a" by simp
  let ?e = "exponent a b"
  have b0: "(0::rat) < of_nat b"
    using assms(1) by simp
  have "bit_length b \<le> 1022"
    using assms(2) by (rule bit_length_le)
  moreover have "0 < bit_length a"
    using a by (rule bit_length_pos)
  ultimately have "- 1022 \<le> ?e"
    using exponent_ge [of a b] by linarith
  then have s: "max (?e - 52) (- 1074) = ?e - 52"
    by simp
  have "pow2 ?e * of_nat b \<le> of_nat a"
    using a assms(1) by (rule exponent_bounds)
  then have q: "pow2 ?e \<le> of_nat a / of_nat b"
    using b0 by (simp add: le_divide_eq)
  have "pow2 (?e - 52) = pow2 ?e * pow2 (- 52)"
    using pow2_add [of ?e "- 52"] by simp
  also have "\<dots> = pow2 ?e / 2 ^ 52"
    by (simp add: pow2_def)
  also have "\<dots> \<le> (of_nat a / of_nat b) / 2 ^ 52"
    using q by (simp add: divide_right_mono)
  finally have u: "pow2 (?e - 52) \<le> (of_nat a / of_nat b) / 2 ^ 52" .
  have "2 * \<bar>nearest_double a b - of_nat a / of_nat b\<bar> \<le> pow2 (?e - 52)"
    using nearest_double_error [OF assms(1), of a] False s by simp
  then have "2 * \<bar>nearest_double a b - of_nat a / of_nat b\<bar> \<le> (of_nat a / of_nat b) / 2 ^ 52"
    using u by linarith
  then show ?thesis
    by simp
qed

section \<open>The page loop in closed form\<close>

lemma page_step_eq:
  "page_step (full_text, secs) (n, p) = (full_text @ page_block p, secs @ [section_of n p])"
  by (cases p) (simp_all add: page_step_def)

lemma foldl_page_step:
  "foldl page_step (full_text, secs) (enumerate n ps) =
     (full_text @ concat (map page_block ps),
      secs @ map (\<lambda>(i, p). section_of i p) (enumerate n ps))"
  by (induction ps arbitrary: full_text secs n) (simp_all add: page_step_eq)

lemma run_pages_eq:
  "run_pages ps =
     (concat (map page_block ps), map (\<lambda>(i, p). section_of i p) (enumerate 0 ps))"
  by (simp add: run_pages_def foldl_page_step)

lemma extract_reader:
  "extract_text_from_pdf date_str (Reader r) =
     Inr \<lparr>text_content = strip (concat (map page_block (pages r))),
          page_count = length (pages r),
          doc_word_count = length (split_ws (concat (map page_block (pages r)))),
          metadata = extract_metadata date_str (reader_metadata r),
          sections = map (\<lambda>(i, p). section_of i p) (enumerate 0 (pages r))\<rparr>"
  by (simp add: extract_text_from_pdf_def run_pages_eq)

lemma fst_run_pages_take_Suc:
  "k < length ps \<Longrightarrow>
   fst (run_pages (take (Suc k) ps)) = fst (run_pages (take k ps)) @ page_block (ps ! k)"
  by (simp add: run_pages_eq take_Suc_conv_app_nth)

lemma split_ws_from_block:
  "split_ws_from [] (page_block p @ rest) =
     (case p of Extracted t \<Rightarrow> split_ws t | Raised e \<Rightarrow> []) @ split_ws_from [] rest"
proof (cases p)
  case (Extracted t)
  have "split_ws_from [] (t @ 10 # 10 # rest) = split_ws_from [] t @ split_ws_from [] (10 # rest)"
    by (rule split_ws_from_append) (rule isspace_newline)
  then show ?thesis
    using Extracted by (simp add: blank_line_def split_ws_def isspace_newline flush_def)
next
  case (Raised e)
  then show ?thesis by simp
qed

lemma split_ws_blocks:
  "split_ws (concat (map page_block ps)) =
     concat (map (\<lambda>p. case p of Extracted t \<Rightarrow> split_ws t | Raised e \<Rightarrow> []) ps)"
proof (induction ps)
  case Nil
  show ?case by (simp add: split_ws_def flush_def)
next
  case (Cons p ps)
  then show ?case
    using split_ws_from_block [of p "concat (map page_block ps)"]
    by (simp add: split_ws_def)
qed

lemma word_count_section_of:
  "word_count (section_of i p) = length (case p of Extracted t \<Rightarrow> split_ws t | Raised e \<Rightarrow> [])"
  by (cases p) simp_all

lemma sum_word_counts:
  "sum_list (map word_count (map (\<lambda>(i, p). section_of i p) (enumerate n ps))) =
   length (concat (map (\<lambda>p. case p of Extracted t \<Rightarrow> split_ws t | Raised e \<Rightarrow> []) ps))"
  by (induction ps arbitrary: n) (simp_all add: word_count_section_of)

lemma concat_blocks_join:
  "concat (map (\<lambda>t. t @ sep) ts) = (if ts = [] then [] else join sep ts @ sep)"
  by (induction sep ts rule: join.induct) simp_all

section \<open>The claims\<close>

subsection \<open>C1: an unreadable file\<close>

text \<open>
  For a file that the library cannot open as a PDF, \<open>extract_text_from_pdf\<close> produces
  no document and raises an \<^verbatim>\<open>HTTPException\<close> with status 400.
\<close>

lemma extract_unreadable:
  "extract_text_from_pdf date_str (Unreadable m) =
     Inl (HTTPException 400 (lit ''Failed to extract text from PDF: '' @ m))"
  by (simp add: extract_text_from_pdf_def)

lemma pdf_suffix: "endswith (lower (lit ''report.pdf'')) (lit ''.pdf'')"
  by (simp add: endswith_def lower_def lit_def)

text \<open>
  C1. The claim says that a byte stream which is no PDF container reaches the caller as a
  client-side failure with status 400. The endpoint does not do that: the exception of
  \<open>extract_text_from_pdf\<close> is raised inside the \<^verbatim>\<open>try\<close> block of \<open>extract_text\<close>,
  whose \<^verbatim>\<open>except Exception\<close> catches it and raises status 500. The theorem evaluates the
  endpoint for an upload named \<^verbatim>\<open>report.pdf\<close> whose content cannot be read, with any
  message \<open>m\<close> of the library.
\<close>

theorem extract_text_invalid_document_status:
  "extract_text http_str date_str now (lit ''report.pdf'') doc_id (Unreadable m) =
     Inl (HTTPException 500
           (lit ''Processing failed: '' @
            http_str 400 (lit ''Failed to extract text from PDF: '' @ m)))"
  by (simp add: extract_text_def pdf_suffix extract_unreadable exn_str_def)

subsection \<open>C2: a page whose extraction fails\<close>

text \<open>
  C2. When \<^verbatim>\<open>extract_text()\<close> raises on page \<open>k\<close> (counted from 0) with message \<open>e\<close>, the
  extraction still returns a document; its section \<open>k\<close> has the placeholder content,
  both counts 0 and the message under \<^verbatim>\<open>error\<close>; the accumulator after page \<open>k\<close> is the
  accumulator before it; there is one section for every page and \<^verbatim>\<open>page_count\<close> counts
  all pages; and whatever page \<open>k\<close> is replaced with, the sections of all other pages
  stay the same.
\<close>

theorem failed_page_is_isolated:
  assumes "k < length (pages r)" and "pages r ! k = Raised e"
  shows "\<exists>doc. extract_text_from_pdf date_str (Reader r) = Inr doc \<and>
           sections doc ! k =
             \<lparr>sec_type = lit ''page'', page_number = k + 1,
               content = lit ''[Error extracting text from this page]'',
               word_count = 0, char_count = 0, error = Some e\<rparr> \<and>
           fst (run_pages (take (Suc k) (pages r))) = fst (run_pages (take k (pages r))) \<and>
           length (sections doc) = length (pages r) \<and>
           page_count doc = length (pages r) \<and>
           (\<forall>p. \<exists>doc'. extract_text_from_pdf date_str (Reader (r\<lparr>pages := (pages r)[k := p]\<rparr>)) = Inr doc' \<and>
                 (\<forall>j. j < length (pages r) \<and> j \<noteq> k \<longrightarrow> sections doc' ! j = sections doc ! j))"
  using assms
  by (simp add: extract_reader nth_enumerate_eq fst_run_pages_take_Suc)

theorem failed_page_is_isolated_witness:
  "1 < length (pages example_reader) \<and>
   pages example_reader ! 1 = Raised (lit ''boom'') \<and>
   (\<exists>doc. extract_text_from_pdf example_date (Reader example_reader) = Inr doc \<and>
           sections doc ! 1 =
             \<lparr>sec_type = lit ''page'', page_number = 1 + 1,
               content = lit ''[Error extracting text from this page]'',
               word_count = 0, char_count = 0, error = Some (lit ''boom'')\<rparr> \<and>
           fst (run_pages (take (Suc 1) (pages example_reader))) =
             fst (run_pages (take 1 (pages example_reader))) \<and>
           length (sections doc) = length (pages example_reader) \<and>
           page_count doc = length (pages example_reader) \<and>
           (\<forall>p. \<exists>doc'. extract_text_from_pdf example_date
                          (Reader (example_reader\<lparr>pages := (pages example_reader)[1 := p]\<rparr>)) = Inr doc' \<and>
                 (\<forall>j. j < length (pages example_reader) \<and> j \<noteq> 1 \<longrightarrow>
                        sections doc' ! j = sections doc ! j)))"
proof -
  have h1: "1 < length (pages example_reader)"
    by (simp add: example_reader_def)
  have h2: "pages example_reader ! 1 = Raised (lit ''boom'')"
    by (simp add: example_reader_def)
  show ?thesis
    using h1 h2 failed_page_is_isolated [OF h1 h2, of example_date] by (intro conjI)
qed

subsection \<open>C3: a page that extracts\<close>

text \<open>
  The claim gives \<^verbatim>\<open>char_count\<close> as the length of the trimmed text. The code takes
  \<^verbatim>\<open>len(page_text)\<close>, the length of the text as extracted: for the one-page document
  with the text \<^verbatim>\<open>" a"\<close> the section has \<^verbatim>\<open>char_count\<close> 2, while the trimmed text has
  length 1.
\<close>

theorem char_count_counterexample:
  "extract_text_from_pdf example_date
     (Reader \<lparr>reader_metadata = None, pages = [Extracted (lit '' a'')]\<rparr>) =
   Inr \<lparr>text_content = lit ''a'', page_count = 1, doc_word_count = 1,
        metadata = Map.empty,
        sections = [\<lparr>sec_type = lit ''page'', page_number = 1, content = lit ''a'',
                     word_count = 1, char_count = 2, error = None\<rparr>]\<rparr> \<and>
   length (strip (lit '' a'')) = 1"
  by (simp add: extract_reader extract_metadata_def strip_def split_ws_def lit_def
      blank_line_def isspace_def flush_def)

text \<open>
  C3, amended. For a page \<open>k\<close> (counted from 0) that extracts with text \<open>page_text\<close>,
  the section has the trimmed text as content, the number of white-space delimited
  tokens as \<^verbatim>\<open>word_count\<close> (the same number for the text and for the trimmed text), the
  length of the text as extracted, not trimmed, as \<^verbatim>\<open>char_count\<close>, and no \<^verbatim>\<open>error\<close>;
  and the iteration appends the text as extracted, followed by two line feeds, to the
  accumulator.
\<close>

theorem extracted_page_section:
  assumes "k < length (pages r)" and "pages r ! k = Extracted page_text"
  shows "\<exists>doc. extract_text_from_pdf date_str (Reader r) = Inr doc \<and>
           sections doc ! k =
             \<lparr>sec_type = lit ''page'', page_number = k + 1,
               content = strip page_text,
               word_count = length (split_ws page_text),
               char_count = length page_text, error = None\<rparr> \<and>
           length (split_ws page_text) = length (split_ws (strip page_text)) \<and>
           fst (run_pages (take (Suc k) (pages r))) =
             fst (run_pages (take k (pages r))) @ page_text @ blank_line"
  using assms
  by (simp add: extract_reader nth_enumerate_eq fst_run_pages_take_Suc split_ws_strip)

theorem extracted_page_section_witness:
  "2 < length (pages example_reader) \<and>
   pages example_reader ! 2 = Extracted (lit '' Foo bar baz. '') \<and>
   (\<exists>doc. extract_text_from_pdf example_date (Reader example_reader) = Inr doc \<and>
           sections doc ! 2 =
             \<lparr>sec_type = lit ''page'', page_number = 2 + 1,
               content = strip (lit '' Foo bar baz. ''),
               word_count = length (split_ws (lit '' Foo bar baz. '')),
               char_count = length (lit '' Foo bar baz. ''), error = None\<rparr> \<and>
           length (split_ws (lit '' Foo bar baz. '')) =
             length (split_ws (strip (lit '' Foo bar baz. ''))) \<and>
           fst (run_pages (take (Suc 2) (pages example_reader))) =
             fst (run_pages (take 2 (pages example_reader))) @ lit '' Foo bar baz. '' @ blank_line)"
proof -
  have h1: "2 < length (pages example_reader)"
    by (simp add: example_reader_def)
  have h2: "pages example_reader ! 2 = Extracted (lit '' Foo bar baz. '')"
    by (simp add: example_reader_def)
  show ?thesis
    using h1 h2 extracted_page_section [OF h1 h2, of example_date] by (intro conjI)
qed

subsection \<open>C4: the aggregate word count\<close>

text \<open>
  C4. For every document the extraction returns, \<^verbatim>\<open>text_content\<close> is the trimmed
  accumulator and \<^verbatim>\<open>word_count\<close> is the number of white-space delimited tokens of the
  trimmed accumulator. (The code counts the tokens of the accumulator before trimming;
  \<open>split_ws_strip\<close> shows that this is the same list of tokens.)
\<close>

theorem aggregate_word_count:
  "\<exists>doc. extract_text_from_pdf date_str (Reader r) = Inr doc \<and>
         text_content doc = strip (fst (run_pages (pages r))) \<and>
         doc_word_count doc = length (split_ws (strip (fst (run_pages (pages r)))))"
  by (simp add: extract_reader run_pages_eq split_ws_strip)

subsection \<open>C5: one section per page\<close>

text \<open>
  C5. For every file the library can read, the document has as many sections as its
  \<^verbatim>\<open>page_count\<close>, which is the number of pages of the reader, failed pages included.
\<close>

theorem section_count_is_page_count:
  "\<exists>doc. extract_text_from_pdf date_str (Reader r) = Inr doc \<and>
         length (sections doc) = page_count doc \<and>
         page_count doc = length (pages r)"
  by (simp add: extract_reader)

subsection \<open>C6: the full text when every page extracts\<close>

text \<open>
  C6. When every page extracts, with the texts \<open>page_texts\<close>, the \<^verbatim>\<open>text_content\<close> of
  the document is the trimmed result of joining the texts with a blank line.
\<close>

theorem full_text_is_joined_pages:
  "\<exists>doc. extract_text_from_pdf date_str
            (Reader \<lparr>reader_metadata = md, pages = map Extracted page_texts\<rparr>) = Inr doc \<and>
         text_content doc = strip (join blank_line page_texts)"
proof -
  have "strip (concat (map (\<lambda>t. t @ blank_line) page_texts)) = strip (join blank_line page_texts)"
    by (simp add: concat_blocks_join strip_blank_line)
  then show ?thesis
    by (simp add: extract_reader comp_def)
qed

subsection \<open>C7: the metadata\<close>

text \<open>
  When a property of the document information raises, for instance \<^verbatim>\<open>creation_date\<close>
  on a date string that is not in the PDF date format, the extraction raises status 400
  and returns no document.
\<close>

lemma extract_metadata_raises:
  "extract_text_from_pdf date_str (MetadataRaises e) =
     Inl (HTTPException 400 (lit ''Failed to extract text from PDF: '' @ e))"
  by (simp add: extract_text_from_pdf_def)

text \<open>The metadata dictionary, key by key.\<close>

lemma or_empty_eq:
  "or_empty x =
     (case x of
        None \<Rightarrow> TextString []
      | Some (TextString s) \<Rightarrow> TextString s
      | Some (Object v truth) \<Rightarrow> (if truth then Object v truth else TextString []))"
  by (simp add: or_empty_def split: option.splits field_value.splits)

lemma or_empty_cases:
  "(\<exists>s. or_empty x = TextString s) \<or> (\<exists>v. or_empty x = Object v True \<and> x = Some (or_empty x))"
  by (simp add: or_empty_def split: option.splits field_value.splits)

lemma date_or_empty_eq:
  "date_or_empty date_str d = TextString (case d of None \<Rightarrow> [] | Some x \<Rightarrow> date_str x)"
  by (simp add: date_or_empty_def split: option.splits)

lemma extract_metadata_None: "extract_metadata date_str None = Map.empty"
  by (simp add: extract_metadata_def)

lemma extract_metadata_dom:
  "dom (extract_metadata date_str (Some m)) =
     {''title'', ''author'', ''subject'', ''creator'', ''producer'',
      ''creation_date'', ''modification_date''}"
  by (simp add: extract_metadata_def insert_commute)

lemma extract_metadata_text:
  "extract_metadata date_str (Some m) ''title'' = Some (or_empty (title m))"
  "extract_metadata date_str (Some m) ''author'' = Some (or_empty (author m))"
  "extract_metadata date_str (Some m) ''subject'' = Some (or_empty (subject m))"
  "extract_metadata date_str (Some m) ''creator'' = Some (or_empty (creator m))"
  "extract_metadata date_str (Some m) ''producer'' = Some (or_empty (producer m))"
  by (simp_all add: extract_metadata_def)

lemma extract_metadata_dates:
  "extract_metadata date_str (Some m) ''creation_date'' =
     Some (date_or_empty date_str (creation_date m))"
  "extract_metadata date_str (Some m) ''modification_date'' =
     Some (date_or_empty date_str (modification_date m))"
  by (simp_all add: extract_metadata_def)

lemma extract_metadata_values:
  assumes "extract_metadata date_str (Some m) key = Some v"
  shows "v \<in> {or_empty (title m), or_empty (author m), or_empty (subject m),
              or_empty (creator m), or_empty (producer m),
              date_or_empty date_str (creation_date m),
              date_or_empty date_str (modification_date m)}"
  using assms by (simp add: extract_metadata_def split: if_splits)

lemma metadata_value_kinds:
  assumes "extract_metadata date_str (Some m) key = Some v"
  shows "(\<exists>s. v = TextString s) \<or>
         (\<exists>x. v = Object x True \<and>
              Some v \<in> {title m, author m, subject m, creator m, producer m})"
proof -
  consider "v = or_empty (title m)" | "v = or_empty (author m)"
    | "v = or_empty (subject m)" | "v = or_empty (creator m)"
    | "v = or_empty (producer m)"
    | "v = date_or_empty date_str (creation_date m)"
    | "v = date_or_empty date_str (modification_date m)"
    using extract_metadata_values [OF assms] by blast
  then show ?thesis
  proof cases
    case 1
    then show ?thesis using or_empty_cases [of "title m"] by auto
  next
    case 2
    then show ?thesis using or_empty_cases [of "author m"] by auto
  next
    case 3
    then show ?thesis using or_empty_cases [of "subject m"] by auto
  next
    case 4
    then show ?thesis using or_empty_cases [of "creator m"] by auto
  next
    case 5
    then show ?thesis using or_empty_cases [of "producer m"] by auto
  next
    case 6
    then show ?thesis by (simp add: date_or_empty_eq)
  next
    case 7
    then show ?thesis by (simp add: date_or_empty_eq)
  qed
qed

text \<open>
  The claim promises the seven fields, each a string, for every PDF, also for one
  without a metadata object. The code fills the dictionary only under
  \<^verbatim>\<open>if pdf_reader.metadata\<close>; without document information the result keeps the empty
  dictionary, which has no \<^verbatim>\<open>title\<close>. And \<^verbatim>\<open>x or ''\<close> passes on whatever true value the
  property returns: for a PDF whose title is the number 42 the \<^verbatim>\<open>title\<close> of the metadata
  is that number, which is no string.
\<close>

theorem metadata_counterexample:
  "extract_text_from_pdf example_date
     (Reader \<lparr>reader_metadata = None :: (nat, unit) document_information option,
              pages = []\<rparr>) =
     Inr \<lparr>text_content = [], page_count = 0, doc_word_count = 0, metadata = Map.empty,
          sections = []\<rparr> \<and>
   ''title'' \<notin> dom (Map.empty :: string \<rightharpoonup> nat field_value) \<and>
   map_sum id (\<lambda>doc. metadata doc ''title'')
     (extract_text_from_pdf example_date (Reader numeric_title_reader)) =
     Inr (Some (Object 42 True))"
  by (simp add: extract_reader extract_metadata_None strip_def split_ws_def flush_def
      numeric_title_reader_def extract_metadata_text or_empty_def)

text \<open>
  C7, amended. For a file whose metadata can be read: when the document information is
  missing or empty, the metadata of the document is the empty mapping. Otherwise it is
  a mapping with exactly the seven keys \<^verbatim>\<open>title\<close>, \<^verbatim>\<open>author\<close>, \<^verbatim>\<open>subject\<close>, \<^verbatim>\<open>creator\<close>,
  \<^verbatim>\<open>producer\<close>, \<^verbatim>\<open>creation_date\<close> and \<^verbatim>\<open>modification_date\<close>. A text field is the empty
  string when the property returns \<^verbatim>\<open>None\<close>, the empty string or an object that is
  false, the string when it returns a string, and the object itself when it returns a
  true object that is no string. A date field is the empty string when there is no
  date and the date rendered by \<^verbatim>\<open>str\<close> otherwise. So every value is a string, or a
  true object that one of the five text properties returned. When reading the metadata
  raises, the extraction raises status 400 and there is no document.
\<close>

theorem metadata_fields:
  "(\<exists>doc. extract_text_from_pdf date_str (Reader r) = Inr doc \<and>
      (reader_metadata r = None \<longrightarrow> metadata doc = Map.empty) \<and>
      (\<forall>m. reader_metadata r = Some m \<longrightarrow>
         dom (metadata doc) =
           {''title'', ''author'', ''subject'', ''creator'', ''producer'',
            ''creation_date'', ''modification_date''} \<and>
         list_all
           (\<lambda>(key, property).
              metadata doc key =
                Some (case property m of
                        None \<Rightarrow> TextString []
                      | Some (TextString s) \<Rightarrow> TextString s
                      | Some (Object x truth) \<Rightarrow>
                          (if truth then Object x truth else TextString [])))
           [(''title'', title), (''author'', author), (''subject'', subject),
            (''creator'', creator), (''producer'', producer)] \<and>
         list_all
           (\<lambda>(key, property).
              metadata doc key =
                Some (TextString (case property m of None \<Rightarrow> [] | Some d \<Rightarrow> date_str d)))
           [(''creation_date'', creation_date),
            (''modification_date'', modification_date)] \<and>
         (\<forall>key v. metadata doc key = Some v \<longrightarrow>
            (\<exists>s. v = TextString s) \<or>
            (\<exists>x. v = Object x True \<and>
                 Some v \<in> {title m, author m, subject m, creator m, producer m})))) \<and>
   extract_text_from_pdf date_str (MetadataRaises e) =
     Inl (HTTPException 400 (lit ''Failed to extract text from PDF: '' @ e))"
proof (cases "reader_metadata r")
  case None
  then show ?thesis
    by (simp add: extract_reader extract_metadata_None extract_metadata_raises)
next
  case (Some m)
  have kinds: "\<forall>key v. extract_metadata date_str (Some m) key = Some v \<longrightarrow>
            (\<exists>s. v = TextString s) \<or>
            (\<exists>x. v = Object x True \<and>
                 Some v \<in> {title m, author m, subject m, creator m, producer m})"
    using metadata_value_kinds [of date_str m] by blast
  show ?thesis
    using kinds
    by (simp add: Some extract_reader extract_metadata_raises extract_metadata_dom
        extract_metadata_text extract_metadata_dates or_empty_eq date_or_empty_eq)
qed

theorem metadata_fields_witness:
  "reader_metadata example_reader =
     Some \<lparr>title = Some (TextString (lit ''Report'')), author = None,
           subject = Some (TextString []), creator = Some (Object 42 True),
           producer = Some (Object 0 False),
           creation_date = Some (), modification_date = None\<rparr> \<and>
   (\<exists>doc. extract_text_from_pdf example_date (Reader example_reader) = Inr doc \<and>
      dom (metadata doc) =
        {''title'', ''author'', ''subject'', ''creator'', ''producer'',
         ''creation_date'', ''modification_date''} \<and>
      metadata doc ''title'' = Some (TextString (lit ''Report'')) \<and>
      metadata doc ''author'' = Some (TextString []) \<and>
      metadata doc ''subject'' = Some (TextString []) \<and>
      metadata doc ''creator'' = Some (Object 42 True) \<and>
      metadata doc ''producer'' = Some (TextString []) \<and>
      metadata doc ''creation_date'' = Some (TextString (lit ''2024-01-01 00:00:00'')) \<and>
      metadata doc ''modification_date'' = Some (TextString []))"
proof -
  have h: "reader_metadata example_reader =
     Some \<lparr>title = Some (TextString (lit ''Report'')), author = None,
           subject = Some (TextString []), creator = Some (Object 42 True),
           producer = Some (Object 0 False),
           creation_date = Some (), modification_date = None\<rparr>"
    by (simp add: example_reader_def)
  show ?thesis
    using metadata_fields [of example_date example_reader "[]", THEN conjunct1]
    apply (simp add: h example_date_def)
    apply (elim exE conjE)
    apply (intro exI conjI)
            apply assumption+
    done
qed

subsection \<open>C8: sentences and paragraphs\<close>

text \<open>
  C8. The analysis of an extraction response always returns; \<^verbatim>\<open>sentence_count\<close> is the
  number of pieces of \<^verbatim>\<open>text_content\<close>, split at the full stop, that are not empty
  after trimming, and \<^verbatim>\<open>paragraph_count\<close> is the same number for the pieces split at
  two line feeds. In both cases the pieces joined with the separator are the text.
\<close>

theorem sentence_and_paragraph_counts:
  "\<exists>a by_dot by_blank_line.
     basic_analysis now_ms r = Inr a \<and>
     split_sep (lit ''.'') (text_content r) = Inr by_dot \<and>
     split_sep blank_line (text_content r) = Inr by_blank_line \<and>
     join (lit ''.'') by_dot = text_content r \<and>
     join blank_line by_blank_line = text_content r \<and>
     sentence_count (basic_stats a) = length (filter (\<lambda>p. p \<noteq> []) (map strip by_dot)) \<and>
     paragraph_count (basic_stats a) =
       length (filter (\<lambda>p. p \<noteq> []) (map strip by_blank_line))"
  by (simp add: basic_analysis_def split_sep_def truediv_def sentences_eq join_split_sep_from
      lit_def blank_line_def response.defs analysis.defs)

subsection \<open>C9: the average number of words per page\<close>

text \<open>The five words on three pages of \<open>scenario_reader\<close>.\<close>

lemma exponent_5_3: "exponent 5 3 = 0"
  by (simp add: exponent_def bit_length.simps)

lemma nearest_double_5_3: "nearest_double 5 3 = 7505999378950827 / 4503599627370496"
  by (simp add: nearest_double_def exponent_5_3 round_half_even_def pow2_def Let_def)

lemma scenario_extract_text:
  "extract_text http_str example_date now (lit ''report.pdf'') (Some (lit ''doc-1''))
     (Reader scenario_reader) = Inr scenario_response"
  by (simp add: extract_text_def endswith_def lower_def extract_reader scenario_reader_def
      scenario_response_def extract_metadata_None strip_def split_ws_def isspace_def
      flush_def blank_line_def lit_def document.defs response.defs)

text \<open>
  The claim gives the average as the word count divided by the page count. The code
  divides with \<^verbatim>\<open>/\<close>, which returns a double: for the five words on three pages of
  \<open>scenario_reader\<close> the average is the double 7505999378950827 / 2 ^ 52, printed as
  \<^verbatim>\<open>1.6666666666666667\<close>, not the quotient 5 / 3.
\<close>

theorem avg_words_per_page_counterexample:
  "map_sum id (\<lambda>a. avg_words_per_page (basic_stats a))
     (analyze_document (\<lambda>status_code detail. detail) example_date 0 0 (lit ''report.pdf'')
        (Some (lit ''doc-1'')) (Reader scenario_reader)) =
     Inr (PyFloat (7505999378950827 / 4503599627370496)) \<and>
   (7505999378950827 / 4503599627370496 :: rat) \<noteq> 5 / 3"
proof -
  have c: "doc_word_count scenario_response = 5" "page_count scenario_response = 3"
    by (simp_all add: scenario_response_def)
  have "\<exists>a. basic_analysis 0 scenario_response = Inr a \<and>
            avg_words_per_page (basic_stats a) =
              PyFloat (7505999378950827 / 4503599627370496)"
    by (simp add: c basic_analysis_def split_sep_def truediv_def nearest_double_5_3
        lit_def blank_line_def response.defs analysis.defs)
  then show ?thesis
    by (auto simp add: analyze_document_def scenario_extract_text)
qed

text \<open>
  C9, amended. The analysis of an extraction response always returns a result, never
  the \<^verbatim>\<open>ZeroDivisionError\<close> of \<open>truediv\<close>; \<^verbatim>\<open>avg_words_per_page\<close> is the integer 0 when
  the page count is 0, and otherwise the double nearest to the word count divided by
  the page count, which differs from that quotient by at most the quotient divided by
  \<open>2 ^ 53\<close> (for a page count below \<open>2 ^ 1022\<close>, as every length of a list is).
\<close>

theorem avg_words_per_page_guarded:
  "\<exists>a. basic_analysis now_ms r = Inr a \<and>
       avg_words_per_page (basic_stats a) =
         (if page_count r > 0
          then PyFloat (nearest_double (doc_word_count r) (page_count r))
          else PyInt 0) \<and>
       (0 < page_count r \<and> page_count r < 2 ^ 1022 \<longrightarrow>
          (\<exists>q. avg_words_per_page (basic_stats a) = PyFloat q \<and>
               \<bar>q - of_nat (doc_word_count r) / of_nat (page_count r)\<bar> \<le>
                 of_nat (doc_word_count r) / of_nat (page_count r) / 2 ^ 53))"
proof -
  have "0 < page_count r \<and> page_count r < 2 ^ 1022 \<longrightarrow>
        \<bar>nearest_double (doc_word_count r) (page_count r) -
          of_nat (doc_word_count r) / of_nat (page_count r)\<bar> \<le>
            of_nat (doc_word_count r) / of_nat (page_count r) / 2 ^ 53"
    using nearest_double_relative_error [of "page_count r" "doc_word_count r"] by blast
  then show ?thesis
    by (simp add: basic_analysis_def split_sep_def truediv_def lit_def blank_line_def
        response.defs analysis.defs)
qed

theorem avg_words_per_page_guarded_witness:
  "0 < page_count scenario_response \<and> page_count scenario_response < 2 ^ 1022 \<and>
   (\<exists>a. basic_analysis 0 scenario_response = Inr a \<and>
        avg_words_per_page (basic_stats a) =
          PyFloat (7505999378950827 / 4503599627370496) \<and>
        \<bar>7505999378950827 / 4503599627370496 - 5 / 3\<bar> \<le> (5 / 3 / 2 ^ 53 :: rat))"
proof -
  have c: "doc_word_count scenario_response = 5" "page_count scenario_response = 3"
    by (simp_all add: scenario_response_def)
  show ?thesis
    using avg_words_per_page_guarded [of 0 scenario_response]
    apply (simp add: c nearest_double_5_3)
    apply (elim exE conjE)
    apply (intro exI conjI)
      apply assumption+
    done
qed

lemma analyze_document_after_extract:
  "extract_text http_str date_str now file_name doc_id file = Inr extraction_response \<Longrightarrow>
   analyze_document http_str date_str now now_ms file_name doc_id file =
     basic_analysis now_ms extraction_response"
  by (simp add: analyze_document_def)

subsection \<open>C10: the aggregate word count and the sections\<close>

text \<open>
  C10. For every document the extraction returns, \<^verbatim>\<open>word_count\<close> is the sum of the
  \<^verbatim>\<open>word_count\<close>s of its sections: a page that extracts adds its tokens to the
  accumulator, closed by two line feeds, and a failed page adds nothing and counts 0.
\<close>

theorem word_count_is_sum_of_sections:
  "\<exists>doc. extract_text_from_pdf date_str (Reader r) = Inr doc \<and>
         doc_word_count doc = sum_list (map word_count (sections doc))"
  by (simp add: extract_reader split_ws_blocks sum_word_counts del: map_map)

end
